theory Spec2Isabelle
  imports Main "HOL-Library.AList"
begin

section \<open>Strings and identifiers\<close>

text \<open>
  A JavaScript string is modelled as a \<^typ>\<open>string\<close>, one \<^typ>\<open>char\<close> per code unit, the
  code units being those of U+0000 to U+00FF. Identifier comparison (\<open>===\<close>, \<open>Set.has\<close>,
  \<open>Map.get\<close>) is equality of strings.
\<close>

definition dq :: string where
  "dq = [CHR 0x22]"

text \<open>
  The character class \<open>[a-z0-9_-]\<close> of the identifier pattern, and the pattern
  \<open>/^[a-z0-9_-]+$/\<close> itself (no flags: \<open>^\<close> and \<open>$\<close> match only at the two ends of the input).
\<close>

definition idChar :: "char \<Rightarrow> bool" where
  "idChar c = (let n = (of_char c :: nat) in
     (97 \<le> n \<and> n \<le> 122) \<or> (48 \<le> n \<and> n \<le> 57) \<or> n = 95 \<or> n = 45)"

definition idRegex :: "string \<Rightarrow> bool" where
  "idRegex s = (s \<noteq> [] \<and> list_all idChar s)"

text \<open>\<open>String.prototype.toLowerCase\<close> on the code units U+0000 to U+00FF.\<close>

definition lowerChar :: "char \<Rightarrow> char" where
  "lowerChar c = (let n = (of_char c :: nat) in
     if (65 \<le> n \<and> n \<le> 90) \<or> (192 \<le> n \<and> n \<le> 214) \<or> (216 \<le> n \<and> n \<le> 222)
     then char_of (n + 32) else c)"

definition toLowerCase :: "string \<Rightarrow> string" where
  "toLowerCase s = map lowerChar s"

text \<open>\<open>String.prototype.trim\<close>: white space and line terminators are removed at both ends.\<close>

definition jsSpace :: "char \<Rightarrow> bool" where
  "jsSpace c = (let n = (of_char c :: nat) in (9 \<le> n \<and> n \<le> 13) \<or> n = 32 \<or> n = 160)"

definition trim :: "string \<Rightarrow> string" where
  "trim s = rev (dropWhile jsSpace (rev (dropWhile jsSpace s)))"

text \<open>
  \<open>entityIdSchema = z.string().min(1, ..).regex(.., ..).transform(val => val.toLowerCase().trim())\<close>.
  The string checks run on the input as given and each failed check adds its issue; the
  transform is applied to the input only when no check has failed. The result is the list
  of issue messages (\<open>Inl\<close>) or the parsed identifier (\<open>Inr\<close>).
\<close>

definition entityIdSchema :: "string \<Rightarrow> string list + string" where
  "entityIdSchema val =
     (let issues =
        (if length val < 1 then [''ID cannot be empty''] else []) @
        (if \<not> idRegex val
         then [''ID must contain only lowercase letters, numbers, underscores, and hyphens'']
         else [])
      in if issues = [] then Inr (trim (toLowerCase val)) else Inl issues)"

section \<open>The portfolio data model\<close>

text \<open>
  The types inferred from the schemas. An array field with a default is a list: the parsed
  value always has it, so the optional calls \<open>partners?.forEach\<close> of the validation always
  run their loop.
\<close>

datatype CompanyType =
  MainPartner | TechnologyPartner | SolutionProvider | Category | InvalidEntry

datatype CompanyStatus = CompanyActive | CompanyInactive | CompanyMentioned

record Company =
  company_id :: string
  company_name :: string
  company_type :: CompanyType
  company_status :: CompanyStatus

record Technology =
  tech_id :: string
  tech_name :: string
  tech_category :: string
  tech_subcategory :: "string option"

datatype ModuleCategory = Core | Business | IntegrationCategory

record Module =
  mod_id :: string
  mod_name :: string
  mod_type :: string
  mod_category :: ModuleCategory
  mod_platform :: "string option"

datatype ProjectStatus = Completed | Planned | InProgress | OnHold

record DataProject =
  project_id :: string
  project_name :: string
  project_status :: ProjectStatus
  project_description :: string
  partners :: "string list"
  technologies :: "string list"
  platforms :: "string list"
  modules :: "string list"
  deliverables :: "string list"

datatype IntegrationStatus = IntegrationActive | IntegrationPlanned | IntegrationDeprecated

record Integration =
  integration_id :: string
  source :: string
  target :: string
  integration_type :: string
  integration_status :: IntegrationStatus
  integration_projects :: "string list"

record ProjectMetadata =
  meta_name :: string
  meta_version :: string
  meta_lastUpdated :: string
  meta_description :: string

record Entities =
  companies :: "Company list"
  entity_technologies :: "Technology list"
  entity_modules :: "Module list"

record Relationships =
  companyTechnologies :: "(string \<times> string list) list"
  projectModules :: "(string \<times> string list) list"
  technologyDependencies :: "(string \<times> string list) list"

datatype ValidationStatus = Passed | Failed | Pending

record DataQualityInfo =
  validationRules :: "(string \<times> string) list"
  lastValidated :: string
  validationStatus :: ValidationStatus

record PortfolioData =
  projectMetadata :: ProjectMetadata
  entities :: Entities
  projects :: "DataProject list"
  integrations :: "Integration list"
  relationships :: Relationships
  dataQuality :: "DataQualityInfo option"

section \<open>The quality report\<close>

datatype ErrorType = Duplicate | MissingReference | InvalidData | SchemaViolation

datatype WarningType = UnusedEntity | CircularReference | Deprecated

record QualityError =
  err_type :: ErrorType
  err_entity :: string
  err_field :: "string option"
  err_message :: string
  err_value :: "string option"

record QualityWarning =
  warn_type :: WarningType
  warn_entity :: string
  warn_message :: string

record Stats =
  totalEntities :: int
  duplicates :: int
  brokenReferences :: int
  unusedEntities :: int

record DataQualityReport =
  isValid :: bool
  errors :: "QualityError list"
  warnings :: "QualityWarning list"
  stats :: Stats

definition emptyReport :: DataQualityReport where
  "emptyReport =
     \<lparr>isValid = True, errors = [], warnings = [],
      stats = \<lparr>totalEntities = 0, duplicates = 0, brokenReferences = 0, unusedEntities = 0\<rparr>\<rparr>"

section \<open>validateDataQuality\<close>

subsection \<open>Duplicate ids\<close>

definition duplicateError :: "string \<Rightarrow> string \<Rightarrow> QualityError" where
  "duplicateError entityType i =
     \<lparr>err_type = Duplicate, err_entity = entityType, err_field = Some ''id'',
      err_message = ''Duplicate ID found: '' @ i, err_value = Some i\<rparr>"

text \<open>
  One round of the \<open>forEach\<close> of \<open>checkDuplicates\<close>; the state is the local set \<open>ids\<close> and
  the report under construction.
\<close>

definition checkDuplicatesStep ::
  "('a \<Rightarrow> string) \<Rightarrow> string \<Rightarrow> string set \<times> DataQualityReport \<Rightarrow> 'a
     \<Rightarrow> string set \<times> DataQualityReport" where
  "checkDuplicatesStep getId entityType st entity =
     (let ids = fst st; report = snd st;
          report' =
            (if getId entity \<in> ids
             then report\<lparr>errors := errors report @ [duplicateError entityType (getId entity)],
                         stats := (stats report)\<lparr>duplicates := duplicates (stats report) + 1\<rparr>,
                         isValid := False\<rparr>
             else report)
      in (insert (getId entity) ids, report'))"

definition checkDuplicates ::
  "('a \<Rightarrow> string) \<Rightarrow> 'a list \<Rightarrow> string \<Rightarrow> DataQualityReport \<Rightarrow> DataQualityReport" where
  "checkDuplicates getId ents entityType report =
     (let report' = snd (foldl (checkDuplicatesStep getId entityType) ({}, report) ents)
      in report'\<lparr>stats := (stats report')
           \<lparr>totalEntities := totalEntities (stats report') + int (length ents)\<rparr>\<rparr>)"

definition checkAllDuplicates :: "PortfolioData \<Rightarrow> DataQualityReport \<Rightarrow> DataQualityReport" where
  "checkAllDuplicates d report =
     checkDuplicates integration_id (integrations d) ''integrations''
       (checkDuplicates project_id (projects d) ''projects''
         (checkDuplicates mod_id (entity_modules (entities d)) ''modules''
           (checkDuplicates tech_id (entity_technologies (entities d)) ''technologies''
             (checkDuplicates company_id (companies (entities d)) ''companies'' report))))"

subsection \<open>Foreign keys\<close>

definition missingReference ::
  "string \<Rightarrow> string \<Rightarrow> string \<Rightarrow> string \<Rightarrow> QualityError" where
  "missingReference entityType field msg v =
     \<lparr>err_type = MissingReference, err_entity = entityType, err_field = Some field,
      err_message = msg, err_value = Some v\<rparr>"

definition pushBrokenReference :: "QualityError \<Rightarrow> DataQualityReport \<Rightarrow> DataQualityReport" where
  "pushBrokenReference e report =
     report\<lparr>errors := errors report @ [e],
            stats := (stats report)\<lparr>brokenReferences := brokenReferences (stats report) + 1\<rparr>,
            isValid := False\<rparr>"

text \<open>
  The three inner loops of a project: \<open>kind\<close> is the word of the message
  (\<open>company\<close>, \<open>technology\<close>, \<open>module\<close>) and \<open>known\<close> the id set the field refers to.
\<close>

definition projectFieldError :: "DataProject \<Rightarrow> string \<Rightarrow> string \<Rightarrow> string \<Rightarrow> QualityError" where
  "projectFieldError project field kind refId =
     missingReference ''projects'' field
       (''Project '' @ dq @ project_name project @ dq @
        '' references non-existent '' @ kind @ '': '' @ refId) refId"

definition projectRefStep ::
  "DataProject \<Rightarrow> string \<Rightarrow> string \<Rightarrow> string set \<Rightarrow> DataQualityReport \<Rightarrow> string
     \<Rightarrow> DataQualityReport" where
  "projectRefStep project field kind known report refId =
     (if refId \<notin> known
      then pushBrokenReference (projectFieldError project field kind refId) report
      else report)"

definition validateProject ::
  "string set \<Rightarrow> string set \<Rightarrow> string set \<Rightarrow> DataQualityReport \<Rightarrow> DataProject
     \<Rightarrow> DataQualityReport" where
  "validateProject companyIds techIds moduleIds report project =
     (let r1 = foldl (projectRefStep project ''partners'' ''company'' companyIds) report
                 (partners project);
          r2 = foldl (projectRefStep project ''technologies'' ''technology'' techIds) r1
                 (technologies project);
          r3 = foldl (projectRefStep project ''modules'' ''module'' moduleIds) r2
                 (modules project)
      in r3)"

definition integrationRefError :: "Integration \<Rightarrow> string \<Rightarrow> string \<Rightarrow> QualityError" where
  "integrationRefError integration refId field =
     missingReference ''integrations'' field
       (''Integration '' @ dq @ integration_id integration @ dq @
        '' references non-existent entity: '' @ refId) refId"

definition validateRef ::
  "Integration \<Rightarrow> string set \<Rightarrow> string set \<Rightarrow> string \<Rightarrow> string \<Rightarrow> DataQualityReport
     \<Rightarrow> DataQualityReport" where
  "validateRef integration techIds moduleIds refId field report =
     (if refId \<noteq> ''system'' \<and> refId \<notin> techIds \<and> refId \<notin> moduleIds
      then pushBrokenReference (integrationRefError integration refId field) report
      else report)"

definition integrationProjectError :: "Integration \<Rightarrow> string \<Rightarrow> QualityError" where
  "integrationProjectError integration projectId =
     missingReference ''integrations'' ''projects''
       (''Integration '' @ dq @ integration_id integration @ dq @
        '' references non-existent project: '' @ projectId) projectId"

definition integrationProjectStep ::
  "Integration \<Rightarrow> string set \<Rightarrow> DataQualityReport \<Rightarrow> string \<Rightarrow> DataQualityReport" where
  "integrationProjectStep integration projectIds report projectId =
     (if projectId \<notin> projectIds
      then pushBrokenReference (integrationProjectError integration projectId) report
      else report)"

definition validateIntegration ::
  "string set \<Rightarrow> string set \<Rightarrow> string set \<Rightarrow> DataQualityReport \<Rightarrow> Integration
     \<Rightarrow> DataQualityReport" where
  "validateIntegration techIds moduleIds projectIds report integration =
     (let r1 = validateRef integration techIds moduleIds (source integration) ''source'' report;
          r2 = validateRef integration techIds moduleIds (target integration) ''target'' r1;
          r3 = foldl (integrationProjectStep integration projectIds) r2
                 (integration_projects integration)
      in r3)"

definition checkReferences :: "PortfolioData \<Rightarrow> DataQualityReport \<Rightarrow> DataQualityReport" where
  "checkReferences d report =
     (let companyIds = set (map company_id (companies (entities d)));
          techIds = set (map tech_id (entity_technologies (entities d)));
          moduleIds = set (map mod_id (entity_modules (entities d)));
          projectIds = set (map project_id (projects d));
          r1 = foldl (validateProject companyIds techIds moduleIds) report (projects d);
          r2 = foldl (validateIntegration techIds moduleIds projectIds) r1 (integrations d)
      in r2)"

subsection \<open>Unused entities\<close>

text \<open>The three sets \<open>usedTechIds\<close>, \<open>usedModuleIds\<close>, \<open>usedCompanyIds\<close>, in this order.\<close>

type_synonym usedSets = "string set \<times> string set \<times> string set"

definition addAll :: "string set \<Rightarrow> string list \<Rightarrow> string set" where
  "addAll s xs = foldl (\<lambda>acc i. insert i acc) s xs"

definition usedProjectStep :: "usedSets \<Rightarrow> DataProject \<Rightarrow> usedSets" where
  "usedProjectStep u project =
     (case u of (usedTechIds, usedModuleIds, usedCompanyIds) \<Rightarrow>
        (addAll usedTechIds (technologies project),
         addAll usedModuleIds (modules project),
         addAll usedCompanyIds (partners project)))"

definition usedIntegrationStep :: "usedSets \<Rightarrow> Integration \<Rightarrow> usedSets" where
  "usedIntegrationStep u integration =
     (case u of (usedTechIds, usedModuleIds, usedCompanyIds) \<Rightarrow>
        (let t1 = (if source integration \<noteq> ''system''
                   then insert (source integration) usedTechIds else usedTechIds);
             t2 = (if target integration \<noteq> ''system''
                   then insert (target integration) t1 else t1)
         in (t2, usedModuleIds, usedCompanyIds)))"

definition usedIds :: "PortfolioData \<Rightarrow> usedSets" where
  "usedIds d =
     foldl usedIntegrationStep (foldl usedProjectStep ({}, {}, {}) (projects d)) (integrations d)"

definition pushUnused :: "QualityWarning \<Rightarrow> DataQualityReport \<Rightarrow> DataQualityReport" where
  "pushUnused w report =
     report\<lparr>warnings := warnings report @ [w],
            stats := (stats report)\<lparr>unusedEntities := unusedEntities (stats report) + 1\<rparr>\<rparr>"

definition techWarning :: "Technology \<Rightarrow> QualityWarning" where
  "techWarning tech =
     \<lparr>warn_type = UnusedEntity, warn_entity = ''technologies'',
      warn_message = ''Technology '' @ dq @ tech_name tech @ dq @ '' ('' @ tech_id tech @
                     '') is not used in any project or integration''\<rparr>"

definition unusedTechStep :: "string set \<Rightarrow> DataQualityReport \<Rightarrow> Technology \<Rightarrow> DataQualityReport" where
  "unusedTechStep usedTechIds report tech =
     (if tech_id tech \<notin> usedTechIds then pushUnused (techWarning tech) report else report)"

definition moduleWarning :: "Module \<Rightarrow> QualityWarning" where
  "moduleWarning m =
     \<lparr>warn_type = UnusedEntity, warn_entity = ''modules'',
      warn_message = ''Module '' @ dq @ mod_name m @ dq @ '' ('' @ mod_id m @
                     '') is not used in any project''\<rparr>"

definition unusedModuleStep :: "string set \<Rightarrow> DataQualityReport \<Rightarrow> Module \<Rightarrow> DataQualityReport" where
  "unusedModuleStep usedModuleIds report m =
     (if mod_id m \<notin> usedModuleIds then pushUnused (moduleWarning m) report else report)"

definition companyWarning :: "Company \<Rightarrow> QualityWarning" where
  "companyWarning company =
     \<lparr>warn_type = UnusedEntity, warn_entity = ''companies'',
      warn_message = ''Active company '' @ dq @ company_name company @ dq @ '' ('' @
                     company_id company @ '') is not associated with any project''\<rparr>"

definition unusedCompanyStep :: "string set \<Rightarrow> DataQualityReport \<Rightarrow> Company \<Rightarrow> DataQualityReport" where
  "unusedCompanyStep usedCompanyIds report company =
     (if company_status company = CompanyActive \<and> company_id company \<notin> usedCompanyIds
      then pushUnused (companyWarning company) report
      else report)"

definition checkUnused :: "PortfolioData \<Rightarrow> DataQualityReport \<Rightarrow> DataQualityReport" where
  "checkUnused d report =
     (case usedIds d of (usedTechIds, usedModuleIds, usedCompanyIds) \<Rightarrow>
        (let r1 = foldl (unusedTechStep usedTechIds) report (entity_technologies (entities d));
             r2 = foldl (unusedModuleStep usedModuleIds) r1 (entity_modules (entities d));
             r3 = foldl (unusedCompanyStep usedCompanyIds) r2 (companies (entities d))
         in r3))"

subsection \<open>The whole validation\<close>

definition validateDataQuality :: "PortfolioData \<Rightarrow> DataQualityReport" where
  "validateDataQuality d = checkUnused d (checkReferences d (checkAllDuplicates d emptyReport))"

section \<open>deduplicateData and optimizeData\<close>

text \<open>The \<open>filter\<close> callback of \<open>deduplicate\<close> with its local set \<open>seen\<close>.\<close>

fun deduplicateFrom :: "('a \<Rightarrow> string) \<Rightarrow> string set \<Rightarrow> 'a list \<Rightarrow> 'a list" where
  "deduplicateFrom getId seen [] = []"
| "deduplicateFrom getId seen (entity # rest) =
     (if getId entity \<in> seen then deduplicateFrom getId seen rest
      else entity # deduplicateFrom getId (insert (getId entity) seen) rest)"

definition deduplicate :: "('a \<Rightarrow> string) \<Rightarrow> 'a list \<Rightarrow> 'a list" where
  "deduplicate getId ents = deduplicateFrom getId {} ents"

definition deduplicateData :: "PortfolioData \<Rightarrow> PortfolioData" where
  "deduplicateData d =
     d\<lparr>entities :=
         \<lparr>companies = deduplicate company_id (companies (entities d)),
          entity_technologies = deduplicate tech_id (entity_technologies (entities d)),
          entity_modules = deduplicate mod_id (entity_modules (entities d))\<rparr>,
       projects := deduplicate project_id (projects d),
       integrations := deduplicate integration_id (integrations d)\<rparr>"

text \<open>
  \<open>optimizeData(data, removeUnused = false)\<close>: the flag is optional, \<open>None\<close> is the call
  that leaves it out.
\<close>

definition optimizeData :: "PortfolioData \<Rightarrow> bool option \<Rightarrow> PortfolioData" where
  "optimizeData d removeUnusedArg =
     (let removeUnused = (case removeUnusedArg of None \<Rightarrow> False | Some b \<Rightarrow> b)
      in if \<not> removeUnused then d
         else
           (let report = validateDataQuality d;
                unusedIds = set (map warn_entity
                                  (filter (\<lambda>w. warn_type w = UnusedEntity) (warnings report)))
            in d))"

section \<open>The admin quality check (useAdminData)\<close>

text \<open>
  Modelled from the spec: the declarations of the admin \<open>Project\<close> and \<open>Skill\<close> types
  (\<open>@/types/project\<close>, \<open>@/types/skill\<close>) are not among the sources; the fields are the ones
  the hook reads (\<open>title\<close>, \<open>featured\<close>, \<open>updatedAt\<close>, \<open>name\<close>), with the types the spec gives.
  Of the experiences only their number is read.
\<close>

record AdminProject =
  admin_id :: string
  title :: string
  featured :: bool
  updatedAt :: "int option"

record AdminSkill =
  skill_id :: string
  skill_name :: string

text \<open>The decimal notation of a number, as a template literal prints it.\<close>

fun natToString :: "nat \<Rightarrow> string" where
  "natToString n =
     (if n < 10 then [char_of (48 + n)]
      else natToString (n div 10) @ [char_of (48 + n mod 10)])"

declare natToString.simps [simp del]

definition numberToString :: "int \<Rightarrow> string" where
  "numberToString i = (if i < 0 then ''-'' @ natToString (nat (- i)) else natToString (nat i))"

text \<open>
  A \<open>Map<string, number>\<close> is an association list in insertion order: \<open>set\<close> on a key the
  map has keeps the key's place, on a new key it adds the entry at the end
  (\<^const>\<open>AList.update\<close>). \<open>map.get(k) || 0\<close> is \<open>0\<close> when the key is missing or the stored
  number is \<open>0\<close>.
\<close>

definition getOrZero :: "(string \<times> int) list \<Rightarrow> string \<Rightarrow> int" where
  "getOrZero m k = (case map_of m k of None \<Rightarrow> 0 | Some c \<Rightarrow> (if c = 0 then 0 else c))"

definition countStep :: "(string \<times> int) list \<Rightarrow> string \<Rightarrow> (string \<times> int) list" where
  "countStep m k = (let count = getOrZero m k in AList.update k (count + 1) m)"

definition countValues :: "string list \<Rightarrow> (string \<times> int) list" where
  "countValues ks = foldl countStep [] ks"

text \<open>
  One round of the \<open>forEach\<close> over a frequency map; \<open>entityType\<close> is \<open>projects\<close> or \<open>skills\<close>
  and \<open>what\<close> the words \<open>project title\<close> or \<open>skill name\<close> of the message.
\<close>

definition duplicateValueWarning :: "string \<Rightarrow> string \<Rightarrow> string \<Rightarrow> int \<Rightarrow> QualityWarning" where
  "duplicateValueWarning entityType what v count =
     \<lparr>warn_type = UnusedEntity, warn_entity = entityType,
      warn_message = ''Duplicate '' @ what @ '' found: '' @ dq @ v @ dq @ '' ('' @
                     numberToString count @ '' times)''\<rparr>"

definition duplicateValueStep ::
  "string \<Rightarrow> string \<Rightarrow> DataQualityReport \<Rightarrow> string \<times> int \<Rightarrow> DataQualityReport" where
  "duplicateValueStep entityType what report entry =
     (case entry of (v, count) \<Rightarrow>
        if count > 1
        then report\<lparr>warnings := warnings report @ [duplicateValueWarning entityType what v count],
                    stats := (stats report)\<lparr>duplicates := duplicates (stats report) + 1\<rparr>\<rparr>
        else report)"

text \<open>
  The report that \<open>runQualityCheck\<close> computes from the hook's \<open>projects\<close>, \<open>skills\<close> and
  \<open>experiences\<close> and stores as \<open>qualityReport\<close>.
\<close>

definition runQualityCheck ::
  "AdminProject list \<Rightarrow> AdminSkill list \<Rightarrow> 'e list \<Rightarrow> DataQualityReport" where
  "runQualityCheck ps ss es =
     (let report =
            \<lparr>isValid = True, errors = [], warnings = [],
             stats = \<lparr>totalEntities = int (length ps) + int (length ss) + int (length es),
                      duplicates = 0, brokenReferences = 0, unusedEntities = 0\<rparr>\<rparr>;
          projectTitles = countValues (map title ps);
          r1 = foldl (duplicateValueStep ''projects'' ''project title'') report projectTitles;
          skillNames = countValues (map skill_name ss);
          r2 = foldl (duplicateValueStep ''skills'' ''skill name'') r1 skillNames
      in r2)"

text \<open>
  The \<open>dataQualityScore\<close> of the hook's \<open>stats\<close>; \<open>None\<close> is the state before any quality
  check has run (\<open>qualityReport\<close> is \<open>null\<close>).
\<close>

definition dataQualityScore :: "DataQualityReport option \<Rightarrow> int" where
  "dataQualityScore qualityReport =
     (case qualityReport of
        None \<Rightarrow> 100
      | Some r \<Rightarrow>
          (let q0 = 100;
               q1 = q0 - duplicates (stats r) * 10;
               q2 = q1 - brokenReferences (stats r) * 15;
               q3 = q2 - unusedEntities (stats r) * 2
           in max 0 (min 100 q3)))"

section \<open>Notions of the specification\<close>

text \<open>
  The ids of a collection that stand at a place where the same id has occurred before, in
  collection order: the "subsequent occurrences" of the specification.
\<close>

definition laterOccurrences_spec :: "string list \<Rightarrow> string list" where
  "laterOccurrences_spec ids =
     concat (map (\<lambda>i. if ids ! i \<in> set (take i ids) then [ids ! i] else []) [0..<length ids])"

text \<open>The entities of a collection that are the first with their id, in collection order.\<close>

definition firstOccurrences_spec :: "('a \<Rightarrow> string) \<Rightarrow> 'a list \<Rightarrow> 'a list" where
  "firstOccurrences_spec getId ents =
     concat (map (\<lambda>i. if getId (ents ! i) \<in> getId ` set (take i ents) then [] else [ents ! i])
               [0..<length ents])"

text \<open>
  The five collections the duplicate scan visits, in its order, each with the entity type
  it reports and the ids of its entities in collection order.
\<close>

definition collections_spec :: "PortfolioData \<Rightarrow> (string \<times> string list) list" where
  "collections_spec d =
     [(''companies'', map company_id (companies (entities d))),
      (''technologies'', map tech_id (entity_technologies (entities d))),
      (''modules'', map mod_id (entity_modules (entities d))),
      (''projects'', map project_id (projects d)),
      (''integrations'', map integration_id (integrations d))]"

text \<open>
  The broken reference instances of a snapshot, each as entity type, field and referenced
  id: per project the missing partners, technologies and modules, per integration the
  source and the target that are neither \<open>system\<close> nor a technology nor a module, and the
  missing projects. The id sets are those of the raw collections.
\<close>

definition brokenProjectRefs_spec ::
  "PortfolioData \<Rightarrow> DataProject \<Rightarrow> (string \<times> string option \<times> string option) list" where
  "brokenProjectRefs_spec d p =
     map (\<lambda>x. (''projects'', Some ''partners'', Some x))
       (filter (\<lambda>x. x \<notin> set (map company_id (companies (entities d)))) (partners p)) @
     map (\<lambda>x. (''projects'', Some ''technologies'', Some x))
       (filter (\<lambda>x. x \<notin> set (map tech_id (entity_technologies (entities d)))) (technologies p)) @
     map (\<lambda>x. (''projects'', Some ''modules'', Some x))
       (filter (\<lambda>x. x \<notin> set (map mod_id (entity_modules (entities d)))) (modules p))"

definition validEndpoint_spec :: "PortfolioData \<Rightarrow> string \<Rightarrow> bool" where
  "validEndpoint_spec d x =
     (x = ''system'' \<or> x \<in> set (map tech_id (entity_technologies (entities d))) \<or>
      x \<in> set (map mod_id (entity_modules (entities d))))"

definition brokenIntegrationRefs_spec ::
  "PortfolioData \<Rightarrow> Integration \<Rightarrow> (string \<times> string option \<times> string option) list" where
  "brokenIntegrationRefs_spec d i =
     (if validEndpoint_spec d (source i) then []
      else [(''integrations'', Some ''source'', Some (source i))]) @
     (if validEndpoint_spec d (target i) then []
      else [(''integrations'', Some ''target'', Some (target i))]) @
     map (\<lambda>x. (''integrations'', Some ''projects'', Some x))
       (filter (\<lambda>x. x \<notin> set (map project_id (projects d))) (integration_projects i))"

definition brokenReferences_spec ::
  "PortfolioData \<Rightarrow> (string \<times> string option \<times> string option) list" where
  "brokenReferences_spec d =
     concat (map (brokenProjectRefs_spec d) (projects d)) @
     concat (map (brokenIntegrationRefs_spec d) (integrations d))"

text \<open>The distinct values of a list, in the order of their first occurrence.\<close>

definition distinctValues_spec :: "string list \<Rightarrow> string list" where
  "distinctValues_spec ks = firstOccurrences_spec (\<lambda>k. k) ks"

text \<open>
  The admin check's warnings for a list of titles or names: one for every distinct value
  that occurs more than once, with the number of its occurrences.
\<close>

definition duplicateValueWarnings :: "string \<Rightarrow> string \<Rightarrow> string list \<Rightarrow> QualityWarning list" where
  "duplicateValueWarnings entityType what ks =
     map (\<lambda>v. duplicateValueWarning entityType what v (int (count_list ks v)))
       (filter (\<lambda>v. 1 < count_list ks v) (distinctValues_spec ks))"

text \<open>The errors of a report that are duplicates of one entity type, and its missing references.\<close>

definition duplicateErrorsOf :: "string \<Rightarrow> DataQualityReport \<Rightarrow> QualityError list" where
  "duplicateErrorsOf ty r = filter (\<lambda>e. err_type e = Duplicate \<and> err_entity e = ty) (errors r)"

definition missingReferenceErrors :: "DataQualityReport \<Rightarrow> QualityError list" where
  "missingReferenceErrors r = filter (\<lambda>e. err_type e = MissingReference) (errors r)"

section \<open>Example data\<close>

definition snapshot ::
  "Company list \<Rightarrow> Technology list \<Rightarrow> Module list \<Rightarrow> DataProject list \<Rightarrow> Integration list
     \<Rightarrow> PortfolioData" where
  "snapshot cs ts ms ps is =
     \<lparr>projectMetadata = \<lparr>meta_name = ''portfolio'', meta_version = ''1'',
                          meta_lastUpdated = [], meta_description = []\<rparr>,
      entities = \<lparr>companies = cs, entity_technologies = ts, entity_modules = ms\<rparr>,
      projects = ps, integrations = is,
      relationships = \<lparr>companyTechnologies = [], projectModules = [],
                        technologyDependencies = []\<rparr>,
      dataQuality = None\<rparr>"

definition company :: "string \<Rightarrow> CompanyStatus \<Rightarrow> Company" where
  "company i st =
     \<lparr>company_id = i, company_name = i, company_type = MainPartner, company_status = st\<rparr>"

definition technology :: "string \<Rightarrow> Technology" where
  "technology i =
     \<lparr>tech_id = i, tech_name = i, tech_category = ''frontend'', tech_subcategory = None\<rparr>"

definition moduleOf :: "string \<Rightarrow> Module" where
  "moduleOf i =
     \<lparr>mod_id = i, mod_name = i, mod_type = ''service'', mod_category = Core,
      mod_platform = None\<rparr>"

definition project :: "string \<Rightarrow> string list \<Rightarrow> string list \<Rightarrow> string list \<Rightarrow> DataProject" where
  "project i ps ts ms =
     \<lparr>project_id = i, project_name = i, project_status = Completed, project_description = [],
      partners = ps, technologies = ts, platforms = [], modules = ms, deliverables = []\<rparr>"

definition integration :: "string \<Rightarrow> string \<Rightarrow> string \<Rightarrow> string list \<Rightarrow> Integration" where
  "integration i s t ps =
     \<lparr>integration_id = i, source = s, target = t, integration_type = ''api'',
      integration_status = IntegrationActive, integration_projects = ps\<rparr>"

text \<open>Scenario A: one company, one technology, a project naming a technology that is missing.\<close>

definition scenarioA :: PortfolioData where
  "scenarioA = snapshot [company ''acme'' CompanyActive] [technology ''react''] []
     [project ''p1'' [''acme''] [''vue''] []] []"

text \<open>Scenario B: two companies with the id \<open>acme\<close>.\<close>

definition scenarioB :: PortfolioData where
  "scenarioB =
     snapshot [company ''acme'' CompanyActive, company ''acme'' CompanyActive] [] [] [] []"

text \<open>A snapshot with unused entities and no error.\<close>

definition scenarioUnused :: PortfolioData where
  "scenarioUnused = snapshot [company ''acme'' CompanyActive] [technology ''react''] [] [] []"

text \<open>A snapshot with an id three times among the companies and one twice among the technologies.\<close>

definition scenarioDup :: PortfolioData where
  "scenarioDup =
     snapshot [company ''acme'' CompanyActive, company ''acme'' CompanyInactive,
               company ''beta'' CompanyActive, company ''acme'' CompanyActive]
       [technology ''react'', technology ''react''] [] [] []"

text \<open>A snapshot with broken references in several fields, one id missing more than once.\<close>

definition scenarioRefs :: PortfolioData where
  "scenarioRefs =
     snapshot [company ''acme'' CompanyActive]
       [technology ''react'', technology ''react''] [moduleOf ''auth'']
       [project ''p1'' [''acme'', ''ghost''] [''react'', ''ghost'', ''ghost''] [''auth'']]
       [integration ''i1'' ''system'' ''auth'' [''p1'', ''p9''],
        integration ''i2'' ''react'' ''ghost'' []]"

text \<open>Companies of every status, one of them a partner of a project.\<close>

definition scenarioCompanies :: PortfolioData where
  "scenarioCompanies =
     snapshot [company ''acme'' CompanyActive, company ''beta'' CompanyInactive,
               company ''gamma'' CompanyActive, company ''delta'' CompanyMentioned]
       [] [] [project ''p1'' [''gamma''] [] []] []"

definition reportWithStats :: "int \<Rightarrow> int \<Rightarrow> int \<Rightarrow> DataQualityReport" where
  "reportWithStats d b u =
     \<lparr>isValid = True, errors = [], warnings = [],
      stats = \<lparr>totalEntities = 0, duplicates = d, brokenReferences = b, unusedEntities = u\<rparr>\<rparr>"

definition adminProject :: "string \<Rightarrow> string \<Rightarrow> AdminProject" where
  "adminProject i t = \<lparr>admin_id = i, title = t, featured = False, updatedAt = None\<rparr>"

text \<open>Scenario E: the admin projects with the titles \<open>X\<close>, \<open>X\<close>, \<open>Y\<close>.\<close>

definition scenarioE :: "AdminProject list" where
  "scenarioE = [adminProject ''1'' ''X'', adminProject ''2'' ''X'', adminProject ''3'' ''Y'']"

text \<open>Two admin projects whose titles differ in case only.\<close>

definition scenarioCase :: "AdminProject list" where
  "scenarioCase = [adminProject ''1'' ''X'', adminProject ''2'' ''x'']"

lemmas example_defs = snapshot_def company_def technology_def project_def integration_def

section \<open>Closed forms of the passes\<close>

subsection \<open>Occurrences\<close>

lemma laterOccurrences_Nil: "laterOccurrences_spec [] = []"
  by (simp add: laterOccurrences_spec_def)

lemma laterOccurrences_snoc:
  "laterOccurrences_spec (xs @ [x]) =
     laterOccurrences_spec xs @ (if x \<in> set xs then [x] else [])"
proof -
  have h: "map (\<lambda>i. if (xs @ [x]) ! i \<in> set (take i (xs @ [x])) then [(xs @ [x]) ! i] else [])
             [0..<length xs] =
           map (\<lambda>i. if xs ! i \<in> set (take i xs) then [xs ! i] else []) [0..<length xs]"
    by (rule map_cong) (auto simp: nth_append)
  show ?thesis
    unfolding laterOccurrences_spec_def length_append_singleton upt_Suc_append[OF le0]
      map_append concat_append h
    by simp
qed

lemma firstOccurrences_Nil: "firstOccurrences_spec g [] = []"
  by (simp add: firstOccurrences_spec_def)

lemma firstOccurrences_snoc:
  "firstOccurrences_spec g (xs @ [x]) =
     firstOccurrences_spec g xs @ (if g x \<in> g ` set xs then [] else [x])"
proof -
  have h: "map (\<lambda>i. if g ((xs @ [x]) ! i) \<in> g ` set (take i (xs @ [x])) then []
                     else [(xs @ [x]) ! i]) [0..<length xs] =
           map (\<lambda>i. if g (xs ! i) \<in> g ` set (take i xs) then [] else [xs ! i])
             [0..<length xs]"
    by (rule map_cong) (auto simp: nth_append)
  show ?thesis
    unfolding firstOccurrences_spec_def length_append_singleton upt_Suc_append[OF le0]
      map_append concat_append h
    by simp
qed

lemma count_laterOccurrences:
  "count_list (laterOccurrences_spec xs) x = count_list xs x - 1"
proof (induction xs rule: rev_induct)
  case Nil
  show ?case by (simp add: laterOccurrences_Nil)
next
  case (snoc a xs)
  show ?case
  proof (cases "a \<in> set xs")
    case True
    then have "0 < count_list xs a" by (metis count_list_0_iff gr0I)
    with snoc True show ?thesis
      by (cases "a = x") (auto simp: laterOccurrences_snoc)
  next
    case False
    then have "count_list xs a = 0" by (simp add: count_list_0_iff)
    with snoc False show ?thesis
      by (auto simp: laterOccurrences_snoc)
  qed
qed

lemma length_laterOccurrences:
  "length (laterOccurrences_spec xs) = length xs - card (set xs)"
proof (induction xs rule: rev_induct)
  case Nil
  show ?case by (simp add: laterOccurrences_Nil)
next
  case (snoc a xs)
  have le: "card (set xs) \<le> length xs" by (rule card_length)
  show ?case
  proof (cases "a \<in> set xs")
    case True
    then have "insert a (set xs) = set xs" by auto
    with snoc True le show ?thesis by (simp add: laterOccurrences_snoc)
  next
    case False
    with snoc le show ?thesis by (simp add: laterOccurrences_snoc)
  qed
qed

lemma concat_map_if:
  "concat (map (\<lambda>x. if P x then [h x] else []) xs) = map h (filter P xs)"
  by (induction xs) auto

subsection \<open>The duplicate scan\<close>

lemma checkDuplicatesStep_pair:
  "checkDuplicatesStep g ty (ids, r) e =
     (insert (g e) ids,
      if g e \<in> ids
      then r\<lparr>errors := errors r @ [duplicateError ty (g e)],
             stats := (stats r)\<lparr>duplicates := duplicates (stats r) + 1\<rparr>,
             isValid := False\<rparr>
      else r)"
  by (simp add: checkDuplicatesStep_def)

definition addDuplicates :: "string \<Rightarrow> string list \<Rightarrow> DataQualityReport \<Rightarrow> DataQualityReport" where
  "addDuplicates ty ids r =
     r\<lparr>errors := errors r @ map (duplicateError ty) ids,
       stats := (stats r)\<lparr>duplicates := duplicates (stats r) + int (length ids)\<rparr>,
       isValid := isValid r \<and> ids = []\<rparr>"

lemma addDuplicates_Nil: "addDuplicates ty [] r = r"
  by (simp add: addDuplicates_def)

lemma addDuplicates_snoc:
  "addDuplicates ty (ids @ [i]) r =
     (addDuplicates ty ids r)
       \<lparr>errors := errors (addDuplicates ty ids r) @ [duplicateError ty i],
        stats := (stats (addDuplicates ty ids r))
           \<lparr>duplicates := duplicates (stats (addDuplicates ty ids r)) + 1\<rparr>,
        isValid := False\<rparr>"
  by (simp add: addDuplicates_def)

lemma checkDuplicates_fold:
  "foldl (checkDuplicatesStep g ty) ({}, r) es =
     (set (map g es), addDuplicates ty (laterOccurrences_spec (map g es)) r)"
proof (induction es rule: rev_induct)
  case Nil
  show ?case by (simp add: laterOccurrences_Nil addDuplicates_Nil)
next
  case (snoc e es)
  show ?case
    by (simp add: snoc checkDuplicatesStep_pair laterOccurrences_snoc addDuplicates_snoc)
qed

lemma checkDuplicates_closed:
  "checkDuplicates g es ty r =
     r\<lparr>errors := errors r @ map (duplicateError ty) (laterOccurrences_spec (map g es)),
       stats := (stats r)
         \<lparr>totalEntities := totalEntities (stats r) + int (length es),
          duplicates := duplicates (stats r) + int (length (laterOccurrences_spec (map g es)))\<rparr>,
       isValid := isValid r \<and> laterOccurrences_spec (map g es) = []\<rparr>"
  by (simp add: checkDuplicates_def checkDuplicates_fold addDuplicates_def)

definition duplicateErrors :: "PortfolioData \<Rightarrow> QualityError list" where
  "duplicateErrors d =
     concat (map (\<lambda>(ty, ids). map (duplicateError ty) (laterOccurrences_spec ids))
               (collections_spec d))"

definition entityCount :: "PortfolioData \<Rightarrow> nat" where
  "entityCount d =
     length (companies (entities d)) + length (entity_technologies (entities d)) +
     length (entity_modules (entities d)) + length (projects d) + length (integrations d)"

lemma checkAllDuplicates_closed:
  "checkAllDuplicates d emptyReport =
     \<lparr>isValid = (duplicateErrors d = []), errors = duplicateErrors d, warnings = [],
      stats = \<lparr>totalEntities = int (entityCount d),
               duplicates = int (length (duplicateErrors d)),
               brokenReferences = 0, unusedEntities = 0\<rparr>\<rparr>"
  by (simp add: checkAllDuplicates_def checkDuplicates_closed emptyReport_def
      duplicateErrors_def collections_spec_def entityCount_def)

subsection \<open>The reference checks\<close>

definition addBroken :: "QualityError list \<Rightarrow> DataQualityReport \<Rightarrow> DataQualityReport" where
  "addBroken es r =
     r\<lparr>errors := errors r @ es,
       stats := (stats r)\<lparr>brokenReferences := brokenReferences (stats r) + int (length es)\<rparr>,
       isValid := isValid r \<and> es = []\<rparr>"

lemma addBroken_Nil: "addBroken [] r = r"
  by (simp add: addBroken_def)

lemma addBroken_single: "pushBrokenReference e r = addBroken [e] r"
  by (simp add: addBroken_def pushBrokenReference_def)

lemma addBroken_addBroken: "addBroken es2 (addBroken es1 r) = addBroken (es1 @ es2) r"
  by (simp add: addBroken_def)

lemma foldl_addBroken:
  assumes "\<And>r x. f r x = addBroken (g x) r"
  shows "foldl f r xs = addBroken (concat (map g xs)) r"
proof (induction xs rule: rev_induct)
  case Nil
  show ?case by (simp add: addBroken_Nil)
next
  case (snoc x xs)
  have "foldl f r (xs @ [x]) = f (foldl f r xs) x" by simp
  also have "\<dots> = addBroken (g x) (addBroken (concat (map g xs)) r)"
    by (simp only: snoc assms)
  finally show ?case by (simp add: addBroken_addBroken)
qed

lemma projectRef_fold:
  "foldl (projectRefStep p field kind known) r xs =
     addBroken (map (projectFieldError p field kind) (filter (\<lambda>x. x \<notin> known) xs)) r"
proof -
  have "foldl (projectRefStep p field kind known) r xs =
        addBroken (concat (map (\<lambda>x. if x \<notin> known then [projectFieldError p field kind x]
                                     else []) xs)) r"
    by (rule foldl_addBroken) (simp add: projectRefStep_def addBroken_Nil addBroken_single)
  then show ?thesis by (simp only: concat_map_if)
qed

definition projectErrors ::
  "string set \<Rightarrow> string set \<Rightarrow> string set \<Rightarrow> DataProject \<Rightarrow> QualityError list" where
  "projectErrors companyIds techIds moduleIds p =
     map (projectFieldError p ''partners'' ''company'')
       (filter (\<lambda>x. x \<notin> companyIds) (partners p)) @
     map (projectFieldError p ''technologies'' ''technology'')
       (filter (\<lambda>x. x \<notin> techIds) (technologies p)) @
     map (projectFieldError p ''modules'' ''module'')
       (filter (\<lambda>x. x \<notin> moduleIds) (modules p))"

lemma validateProject_closed:
  "validateProject cs ts ms r p = addBroken (projectErrors cs ts ms p) r"
  by (simp add: validateProject_def projectRef_fold addBroken_addBroken projectErrors_def)

lemma validateProject_fold:
  "foldl (validateProject cs ts ms) r ps = addBroken (concat (map (projectErrors cs ts ms) ps)) r"
  by (rule foldl_addBroken) (rule validateProject_closed)

definition integrationRefErrors ::
  "string set \<Rightarrow> string set \<Rightarrow> Integration \<Rightarrow> string \<Rightarrow> string \<Rightarrow> QualityError list" where
  "integrationRefErrors techIds moduleIds i refId field =
     (if refId \<noteq> ''system'' \<and> refId \<notin> techIds \<and> refId \<notin> moduleIds
      then [integrationRefError i refId field] else [])"

definition integrationErrors ::
  "string set \<Rightarrow> string set \<Rightarrow> string set \<Rightarrow> Integration \<Rightarrow> QualityError list" where
  "integrationErrors techIds moduleIds projectIds i =
     integrationRefErrors techIds moduleIds i (source i) ''source'' @
     integrationRefErrors techIds moduleIds i (target i) ''target'' @
     map (integrationProjectError i) (filter (\<lambda>x. x \<notin> projectIds) (integration_projects i))"

lemma validateRef_closed:
  "validateRef i ts ms refId field r = addBroken (integrationRefErrors ts ms i refId field) r"
  by (simp add: validateRef_def integrationRefErrors_def addBroken_Nil addBroken_single)

lemma integrationProject_fold:
  "foldl (integrationProjectStep i ps) r xs =
     addBroken (map (integrationProjectError i) (filter (\<lambda>x. x \<notin> ps) xs)) r"
proof -
  have "foldl (integrationProjectStep i ps) r xs =
        addBroken (concat (map (\<lambda>x. if x \<notin> ps then [integrationProjectError i x] else [])
                             xs)) r"
    by (rule foldl_addBroken)
      (simp add: integrationProjectStep_def addBroken_Nil addBroken_single)
  then show ?thesis by (simp only: concat_map_if)
qed

lemma validateIntegration_closed:
  "validateIntegration ts ms ps r i = addBroken (integrationErrors ts ms ps i) r"
  by (simp add: validateIntegration_def validateRef_closed integrationProject_fold
      addBroken_addBroken integrationErrors_def)

lemma validateIntegration_fold:
  "foldl (validateIntegration ts ms ps) r is =
     addBroken (concat (map (integrationErrors ts ms ps) is)) r"
  by (rule foldl_addBroken) (rule validateIntegration_closed)

definition referenceErrors :: "PortfolioData \<Rightarrow> QualityError list" where
  "referenceErrors d =
     concat (map (projectErrors (set (map company_id (companies (entities d))))
                    (set (map tech_id (entity_technologies (entities d))))
                    (set (map mod_id (entity_modules (entities d))))) (projects d)) @
     concat (map (integrationErrors (set (map tech_id (entity_technologies (entities d))))
                    (set (map mod_id (entity_modules (entities d))))
                    (set (map project_id (projects d)))) (integrations d))"

lemma checkReferences_closed: "checkReferences d r = addBroken (referenceErrors d) r"
  by (simp add: checkReferences_def validateProject_fold validateIntegration_fold
      addBroken_addBroken referenceErrors_def)

subsection \<open>The unused entities\<close>

lemma addAll_eq: "addAll s xs = s \<union> set xs"
  unfolding addAll_def by (induction xs arbitrary: s) auto

definition usedTech :: "PortfolioData \<Rightarrow> string set" where
  "usedTech d =
     (\<Union>p \<in> set (projects d). set (technologies p)) \<union>
     (\<Union>i \<in> set (integrations d). {x. (x = source i \<or> x = target i) \<and> x \<noteq> ''system''})"

definition usedModules :: "PortfolioData \<Rightarrow> string set" where
  "usedModules d = (\<Union>p \<in> set (projects d). set (modules p))"

definition usedCompanies :: "PortfolioData \<Rightarrow> string set" where
  "usedCompanies d = (\<Union>p \<in> set (projects d). set (partners p))"

lemma usedProject_fold:
  "foldl usedProjectStep (t, m, c) ps =
     (t \<union> (\<Union>p \<in> set ps. set (technologies p)),
      m \<union> (\<Union>p \<in> set ps. set (modules p)),
      c \<union> (\<Union>p \<in> set ps. set (partners p)))"
proof (induction ps arbitrary: t m c)
  case Nil
  show ?case by simp
next
  case (Cons p ps)
  have "usedProjectStep (t, m, c) p =
          (t \<union> set (technologies p), m \<union> set (modules p), c \<union> set (partners p))"
    by (simp add: usedProjectStep_def addAll_eq)
  then show ?case by (simp add: Cons Un_assoc)
qed

lemma usedIntegration_fold:
  "foldl usedIntegrationStep (t, m, c) is =
     (t \<union> (\<Union>i \<in> set is. {x. (x = source i \<or> x = target i) \<and> x \<noteq> ''system''}), m, c)"
proof (induction "is" arbitrary: t)
  case Nil
  show ?case by simp
next
  case (Cons i "is")
  have "usedIntegrationStep (t, m, c) i =
          (t \<union> {x. (x = source i \<or> x = target i) \<and> x \<noteq> ''system''}, m, c)"
    by (auto simp: usedIntegrationStep_def Let_def)
  then show ?case by (simp add: Cons Un_assoc)
qed

lemma usedIds_closed: "usedIds d = (usedTech d, usedModules d, usedCompanies d)"
  by (simp add: usedIds_def usedProject_fold usedIntegration_fold usedTech_def
      usedModules_def usedCompanies_def)

definition addUnused :: "QualityWarning list \<Rightarrow> DataQualityReport \<Rightarrow> DataQualityReport" where
  "addUnused ws r =
     r\<lparr>warnings := warnings r @ ws,
       stats := (stats r)\<lparr>unusedEntities := unusedEntities (stats r) + int (length ws)\<rparr>\<rparr>"

lemma addUnused_Nil: "addUnused [] r = r"
  by (simp add: addUnused_def)

lemma addUnused_single: "pushUnused w r = addUnused [w] r"
  by (simp add: addUnused_def pushUnused_def)

lemma addUnused_addUnused: "addUnused ws2 (addUnused ws1 r) = addUnused (ws1 @ ws2) r"
  by (simp add: addUnused_def)

lemma foldl_addUnused:
  assumes "\<And>r x. f r x = addUnused (g x) r"
  shows "foldl f r xs = addUnused (concat (map g xs)) r"
proof (induction xs rule: rev_induct)
  case Nil
  show ?case by (simp add: addUnused_Nil)
next
  case (snoc x xs)
  have "foldl f r (xs @ [x]) = f (foldl f r xs) x" by simp
  also have "\<dots> = addUnused (g x) (addUnused (concat (map g xs)) r)"
    by (simp only: snoc assms)
  finally show ?case by (simp add: addUnused_addUnused)
qed

lemma unusedTech_fold:
  "foldl (unusedTechStep used) r ts =
     addUnused (map techWarning (filter (\<lambda>t. tech_id t \<notin> used) ts)) r"
proof -
  have "foldl (unusedTechStep used) r ts =
        addUnused (concat (map (\<lambda>t. if tech_id t \<notin> used then [techWarning t] else []) ts)) r"
    by (rule foldl_addUnused) (simp add: unusedTechStep_def addUnused_Nil addUnused_single)
  then show ?thesis by (simp only: concat_map_if)
qed

lemma unusedModule_fold:
  "foldl (unusedModuleStep used) r ms =
     addUnused (map moduleWarning (filter (\<lambda>m. mod_id m \<notin> used) ms)) r"
proof -
  have "foldl (unusedModuleStep used) r ms =
        addUnused (concat (map (\<lambda>m. if mod_id m \<notin> used then [moduleWarning m] else []) ms)) r"
    by (rule foldl_addUnused) (simp add: unusedModuleStep_def addUnused_Nil addUnused_single)
  then show ?thesis by (simp only: concat_map_if)
qed

lemma unusedCompany_fold:
  "foldl (unusedCompanyStep used) r cs =
     addUnused (map companyWarning
       (filter (\<lambda>c. company_status c = CompanyActive \<and> company_id c \<notin> used) cs)) r"
proof -
  have "foldl (unusedCompanyStep used) r cs =
        addUnused (concat (map (\<lambda>c. if company_status c = CompanyActive \<and> company_id c \<notin> used
                                     then [companyWarning c] else []) cs)) r"
    by (rule foldl_addUnused) (simp add: unusedCompanyStep_def addUnused_Nil addUnused_single)
  then show ?thesis by (simp only: concat_map_if)
qed

definition unusedWarnings :: "PortfolioData \<Rightarrow> QualityWarning list" where
  "unusedWarnings d =
     map techWarning
       (filter (\<lambda>t. tech_id t \<notin> usedTech d) (entity_technologies (entities d))) @
     map moduleWarning
       (filter (\<lambda>m. mod_id m \<notin> usedModules d) (entity_modules (entities d))) @
     map companyWarning
       (filter (\<lambda>c. company_status c = CompanyActive \<and> company_id c \<notin> usedCompanies d)
          (companies (entities d)))"

lemma checkUnused_closed: "checkUnused d r = addUnused (unusedWarnings d) r"
  by (simp add: checkUnused_def usedIds_closed unusedTech_fold unusedModule_fold
      unusedCompany_fold addUnused_addUnused unusedWarnings_def)

subsection \<open>The report\<close>

lemma validateDataQuality_closed:
  "validateDataQuality d =
     \<lparr>isValid = (duplicateErrors d = [] \<and> referenceErrors d = []),
      errors = duplicateErrors d @ referenceErrors d,
      warnings = unusedWarnings d,
      stats = \<lparr>totalEntities = int (entityCount d),
               duplicates = int (length (duplicateErrors d)),
               brokenReferences = int (length (referenceErrors d)),
               unusedEntities = int (length (unusedWarnings d))\<rparr>\<rparr>"
  by (simp add: validateDataQuality_def checkAllDuplicates_closed checkReferences_closed
      checkUnused_closed addBroken_def addUnused_def)

subsection \<open>The kinds of the findings\<close>

lemma duplicateErrors_type: "e \<in> set (duplicateErrors d) \<Longrightarrow> err_type e = Duplicate"
  by (auto simp: duplicateErrors_def duplicateError_def)

lemma referenceErrors_type: "e \<in> set (referenceErrors d) \<Longrightarrow> err_type e = MissingReference"
  by (auto simp: referenceErrors_def projectErrors_def integrationErrors_def
      integrationRefErrors_def projectFieldError_def integrationRefError_def
      integrationProjectError_def missingReference_def split: if_splits)

lemma unusedWarnings_type: "w \<in> set (unusedWarnings d) \<Longrightarrow> warn_type w = UnusedEntity"
  by (auto simp: unusedWarnings_def techWarning_def moduleWarning_def companyWarning_def)

lemma filter_duplicateError:
  "filter (\<lambda>e. err_type e = Duplicate \<and> err_entity e = ty) (map (duplicateError ty') xs) =
     (if ty = ty' then map (duplicateError ty') xs else [])"
  by (induction xs) (auto simp: duplicateError_def)

lemma filter_referenceErrors_Duplicate:
  "filter (\<lambda>e. err_type e = Duplicate \<and> P e) (referenceErrors d) = []"
  by (auto simp: filter_empty_conv dest: referenceErrors_type)

lemma filter_duplicateErrors_Missing:
  "filter (\<lambda>e. err_type e = MissingReference) (duplicateErrors d) = []"
  by (auto simp: filter_empty_conv dest: duplicateErrors_type)

lemma filter_referenceErrors_Missing:
  "filter (\<lambda>e. err_type e = MissingReference) (referenceErrors d) = referenceErrors d"
  by (auto simp: filter_id_conv dest: referenceErrors_type)

lemma count_value_duplicateError:
  "length (filter (\<lambda>e. err_value e = Some x) (map (duplicateError ty) ys)) = count_list ys x"
  by (induction ys) (auto simp: duplicateError_def)

lemma duplicateErrorsOf_collection:
  assumes "(ty, ids) \<in> set (collections_spec d)"
  shows "duplicateErrorsOf ty (validateDataQuality d) =
           map (duplicateError ty) (laterOccurrences_spec ids)"
  using assms
  by (auto simp: duplicateErrorsOf_def validateDataQuality_closed
      filter_referenceErrors_Duplicate duplicateErrors_def collections_spec_def
      filter_duplicateError)

lemma length_duplicateErrors:
  "length (duplicateErrors d) =
     sum_list (map (\<lambda>(ty, ids). length ids - card (set ids)) (collections_spec d))"
  by (simp add: duplicateErrors_def collections_spec_def length_laterOccurrences)

lemma checkDuplicates_prefix:
  assumes "i < length es"
  shows "errors (checkDuplicates g (take (Suc i) es) ty r) =
           errors (checkDuplicates g (take i es) ty r) @
           (if g (es ! i) \<in> g ` set (take i es) then [duplicateError ty (g (es ! i))] else [])"
proof -
  have "take (Suc i) es = take i es @ [es ! i]"
    using assms by (rule take_Suc_conv_app_nth)
  then show ?thesis
    by (simp add: checkDuplicates_closed laterOccurrences_snoc)
qed

lemma map_projectErrors:
  "map (\<lambda>e. (err_entity e, err_field e, err_value e))
     (projectErrors (set (map company_id (companies (entities d))))
        (set (map tech_id (entity_technologies (entities d))))
        (set (map mod_id (entity_modules (entities d)))) p) = brokenProjectRefs_spec d p"
  by (simp add: projectErrors_def brokenProjectRefs_spec_def projectFieldError_def
      missingReference_def comp_def)

lemma map_integrationErrors:
  "map (\<lambda>e. (err_entity e, err_field e, err_value e))
     (integrationErrors (set (map tech_id (entity_technologies (entities d))))
        (set (map mod_id (entity_modules (entities d))))
        (set (map project_id (projects d))) i) = brokenIntegrationRefs_spec d i"
  by (simp add: integrationErrors_def brokenIntegrationRefs_spec_def integrationRefErrors_def
      integrationRefError_def integrationProjectError_def validEndpoint_spec_def
      missingReference_def comp_def)

lemma map_referenceErrors:
  "map (\<lambda>e. (err_entity e, err_field e, err_value e)) (referenceErrors d) =
     brokenReferences_spec d"
  by (simp only: referenceErrors_def brokenReferences_spec_def map_append map_concat map_map
      comp_def map_projectErrors map_integrationErrors)

lemma missingReferenceErrors_closed:
  "missingReferenceErrors (validateDataQuality d) = referenceErrors d"
  by (simp add: missingReferenceErrors_def validateDataQuality_closed
      filter_duplicateErrors_Missing filter_referenceErrors_Missing)

lemma filter_companies_unusedWarnings:
  "filter (\<lambda>w. warn_entity w = ''companies'') (unusedWarnings d) =
     map companyWarning
       (filter (\<lambda>c. company_status c = CompanyActive \<and> company_id c \<notin> usedCompanies d)
          (companies (entities d)))"
proof -
  have t: "filter (\<lambda>w. warn_entity w = ''companies'') (map techWarning xs) = []" for xs
    by (induction xs) (auto simp: techWarning_def)
  have m: "filter (\<lambda>w. warn_entity w = ''companies'') (map moduleWarning xs) = []" for xs
    by (induction xs) (auto simp: moduleWarning_def)
  have c: "filter (\<lambda>w. warn_entity w = ''companies'') (map companyWarning xs) =
             map companyWarning xs" for xs
    by (induction xs) (auto simp: companyWarning_def)
  show ?thesis
    by (simp only: unusedWarnings_def filter_append t m c append_Nil)
qed

subsection \<open>Deduplication\<close>

lemma deduplicateFrom_ids:
  "getId ` set (deduplicateFrom getId seen es) \<inter> seen = {}
   \<and> distinct (map getId (deduplicateFrom getId seen es))"
proof (induction es arbitrary: seen)
  case Nil
  show ?case by simp
next
  case (Cons e es)
  show ?case
  proof (cases "getId e \<in> seen")
    case True
    then show ?thesis using Cons [of seen] by simp
  next
    case False
    then show ?thesis using Cons [of "insert (getId e) seen"] by auto
  qed
qed

lemma deduplicateFrom_fixed:
  "distinct (map getId es) \<Longrightarrow> getId ` set es \<inter> seen = {} \<Longrightarrow>
     deduplicateFrom getId seen es = es"
  by (induction es arbitrary: seen) auto

lemma deduplicate_idem: "deduplicate getId (deduplicate getId es) = deduplicate getId es"
  unfolding deduplicate_def
  by (rule deduplicateFrom_fixed) (simp_all add: deduplicateFrom_ids)

lemma deduplicateFrom_snoc:
  "deduplicateFrom getId seen (es @ [e]) =
     deduplicateFrom getId seen es @
     (if getId e \<in> seen \<union> getId ` set es then [] else [e])"
  by (induction es arbitrary: seen) auto

lemma deduplicate_first: "deduplicate getId es = firstOccurrences_spec getId es"
proof (induction es rule: rev_induct)
  case Nil
  show ?case by (simp add: deduplicate_def firstOccurrences_Nil)
next
  case (snoc e es)
  then show ?case
    by (simp add: deduplicate_def deduplicateFrom_snoc firstOccurrences_snoc)
qed

subsection \<open>The identifier schema\<close>

lemma idChar_lower: "idChar c \<Longrightarrow> lowerChar c = c"
  by (auto simp: idChar_def lowerChar_def Let_def)

lemma idChar_not_space: "idChar c \<Longrightarrow> \<not> jsSpace c"
  by (auto simp: idChar_def jsSpace_def Let_def)

lemma toLowerCase_id: "list_all idChar s \<Longrightarrow> toLowerCase s = s"
  by (induction s) (auto simp: toLowerCase_def idChar_lower)

lemma dropWhile_id: "list_all idChar s \<Longrightarrow> dropWhile jsSpace s = s"
  by (cases s) (auto simp: idChar_not_space)

lemma trim_id: "list_all idChar s \<Longrightarrow> trim s = s"
proof -
  assume a: "list_all idChar s"
  then have "list_all idChar (rev s)" by (simp add: list_all_iff)
  with a show ?thesis by (simp add: trim_def dropWhile_id)
qed

subsection \<open>The admin check\<close>

lemma distinctValues_Nil: "distinctValues_spec [] = []"
  by (simp add: distinctValues_spec_def firstOccurrences_Nil)

lemma distinctValues_snoc:
  "distinctValues_spec (ks @ [k]) = distinctValues_spec ks @ (if k \<in> set ks then [] else [k])"
  by (simp add: distinctValues_spec_def firstOccurrences_snoc)

lemma set_distinctValues: "set (distinctValues_spec ks) = set ks"
  by (induction ks rule: rev_induct) (auto simp: distinctValues_Nil distinctValues_snoc)

lemma distinct_distinctValues: "distinct (distinctValues_spec ks)"
  by (induction ks rule: rev_induct)
    (auto simp: distinctValues_Nil distinctValues_snoc set_distinctValues)

lemma update_counts_new:
  "k \<notin> set vs \<Longrightarrow> AList.update k c (map (\<lambda>v. (v, f v)) vs) = map (\<lambda>v. (v, f v)) vs @ [(k, c)]"
  by (induction vs) auto

lemma update_counts_old:
  "k \<in> set vs \<Longrightarrow> distinct vs \<Longrightarrow>
     AList.update k c (map (\<lambda>v. (v, f v)) vs) = map (\<lambda>v. (v, if v = k then c else f v)) vs"
  by (induction vs) (auto simp: update_counts_new)

lemma map_of_counts:
  "map_of (map (\<lambda>v. (v, f v)) vs) k = (if k \<in> set vs then Some (f k) else None)"
  by (induction vs) auto

lemma count_list_snoc: "count_list (ks @ [k]) v = count_list ks v + (if v = k then 1 else 0)"
  by (induction ks) auto

lemma countValues_closed:
  "countValues ks = map (\<lambda>v. (v, int (count_list ks v))) (distinctValues_spec ks)"
proof (induction ks rule: rev_induct)
  case Nil
  show ?case by (simp add: countValues_def distinctValues_Nil)
next
  case (snoc k ks)
  let ?m = "map (\<lambda>v. (v, int (count_list ks v))) (distinctValues_spec ks)"
  have step: "countValues (ks @ [k]) = countStep ?m k"
    using snoc by (simp add: countValues_def)
  show ?case
  proof (cases "k \<in> set ks")
    case True
    then have "0 < count_list ks k" by (metis count_list_0_iff gr0I)
    then have g: "getOrZero ?m k = int (count_list ks k)"
      using True by (simp add: getOrZero_def map_of_counts set_distinctValues)
    have "countStep ?m k =
            map (\<lambda>v. (v, if v = k then int (count_list ks k) + 1 else int (count_list ks v)))
              (distinctValues_spec ks)"
      using True
      by (simp add: countStep_def g update_counts_old set_distinctValues distinct_distinctValues)
    also have "\<dots> = map (\<lambda>v. (v, int (count_list (ks @ [k]) v))) (distinctValues_spec ks)"
      by (rule map_cong) (auto simp: count_list_snoc)
    finally show ?thesis using True by (simp only: step distinctValues_snoc) simp
  next
    case False
    then have z: "count_list ks k = 0" by (simp add: count_list_0_iff)
    have g: "getOrZero ?m k = 0"
      using False by (simp add: getOrZero_def map_of_counts set_distinctValues)
    have "countStep ?m k = ?m @ [(k, 1)]"
      using False by (simp add: countStep_def g update_counts_new set_distinctValues)
    moreover have "?m = map (\<lambda>v. (v, int (count_list (ks @ [k]) v))) (distinctValues_spec ks)"
      using False by (intro map_cong) (auto simp: count_list_snoc set_distinctValues)
    ultimately show ?thesis
      using False z by (simp only: step distinctValues_snoc) (simp add: count_list_snoc)
  qed
qed

definition addDuplicateValues :: "QualityWarning list \<Rightarrow> DataQualityReport \<Rightarrow> DataQualityReport" where
  "addDuplicateValues ws r =
     r\<lparr>warnings := warnings r @ ws,
       stats := (stats r)\<lparr>duplicates := duplicates (stats r) + int (length ws)\<rparr>\<rparr>"

lemma addDuplicateValues_Nil: "addDuplicateValues [] r = r"
  by (simp add: addDuplicateValues_def)

lemma addDuplicateValues_add:
  "addDuplicateValues ws2 (addDuplicateValues ws1 r) = addDuplicateValues (ws1 @ ws2) r"
  by (simp add: addDuplicateValues_def)

lemma foldl_addDuplicateValues:
  assumes "\<And>r x. f r x = addDuplicateValues (g x) r"
  shows "foldl f r xs = addDuplicateValues (concat (map g xs)) r"
proof (induction xs rule: rev_induct)
  case Nil
  show ?case by (simp add: addDuplicateValues_Nil)
next
  case (snoc x xs)
  have "foldl f r (xs @ [x]) = f (foldl f r xs) x" by simp
  also have "\<dots> = addDuplicateValues (g x) (addDuplicateValues (concat (map g xs)) r)"
    by (simp only: snoc assms)
  finally show ?case by (simp add: addDuplicateValues_add)
qed

lemma duplicateValue_fold:
  "foldl (duplicateValueStep ty what) r (countValues ks) =
     addDuplicateValues (duplicateValueWarnings ty what ks) r"
proof -
  have "foldl (duplicateValueStep ty what) r (countValues ks) =
        addDuplicateValues
          (concat (map (\<lambda>e. if 1 < snd e then [duplicateValueWarning ty what (fst e) (snd e)]
                            else []) (countValues ks))) r"
    by (rule foldl_addDuplicateValues)
      (auto simp: duplicateValueStep_def addDuplicateValues_def split: prod.splits)
  also have "concat (map (\<lambda>e. if 1 < snd e then [duplicateValueWarning ty what (fst e) (snd e)]
                            else []) (countValues ks)) = duplicateValueWarnings ty what ks"
    by (simp add: concat_map_if countValues_closed duplicateValueWarnings_def filter_map
        comp_def)
  finally show ?thesis .
qed

lemma length_duplicateValueWarnings:
  "length (duplicateValueWarnings ty what ks) = card {v. 1 < count_list ks v}"
proof -
  have "{v. 1 < count_list ks v} = {v \<in> set (distinctValues_spec ks). 1 < count_list ks v}"
  proof -
    have "v \<in> set ks" if "1 < count_list ks v" for v
    proof (rule ccontr)
      assume "v \<notin> set ks"
      then have "count_list ks v = 0" by (simp add: count_list_0_iff)
      with that show False by simp
    qed
    then show ?thesis by (auto simp: set_distinctValues)
  qed
  also have "card \<dots> = length (filter (\<lambda>v. 1 < count_list ks v) (distinctValues_spec ks))"
    by (simp add: distinct_length_filter distinct_distinctValues Int_def conj_commute)
  finally show ?thesis by (simp add: duplicateValueWarnings_def)
qed

subsection \<open>The examples, evaluated\<close>

lemma scenarioUnused_eval:
  "isValid (validateDataQuality scenarioUnused)"
  "errors (validateDataQuality scenarioUnused) = []"
  "length (warnings (validateDataQuality scenarioUnused)) = 2"
  by code_simp+

lemma scenarioB_eval:
  "\<not> isValid (validateDataQuality scenarioB)"
  "length (errors (validateDataQuality scenarioB)) = 1"
  by code_simp+

lemma scenarioDup_eval:
  "(''companies'', [''acme'', ''acme'', ''beta'', ''acme'']) \<in> set (collections_spec scenarioDup)"
  "sum_list (map (\<lambda>(ty, ids). length ids - card (set ids)) (collections_spec scenarioDup)) = 3"
  by code_simp+

lemma scenarioRefs_eval:
  "brokenReferences_spec scenarioRefs =
     [(''projects'', Some ''partners'', Some ''ghost''),
      (''projects'', Some ''technologies'', Some ''ghost''),
      (''projects'', Some ''technologies'', Some ''ghost''),
      (''integrations'', Some ''projects'', Some ''p9''),
      (''integrations'', Some ''target'', Some ''ghost'')]"
  by code_simp

lemma scenarioCompanies_eval:
  "concat (map (\<lambda>c. if company_status c = CompanyActive \<and>
                          company_id c \<notin> (\<Union>p \<in> set (projects scenarioCompanies). set (partners p))
                       then [companyWarning c] else [])
               (companies (entities scenarioCompanies))) =
     [companyWarning (company ''acme'' CompanyActive)]"
  by code_simp

lemma scenarioDup_dedup:
  "firstOccurrences_spec company_id (companies (entities scenarioDup)) =
     [company ''acme'' CompanyActive, company ''beta'' CompanyActive]"
  "firstOccurrences_spec tech_id (entity_technologies (entities scenarioDup)) =
     [technology ''react'']"
  by code_simp+

lemma scenarioE_eval:
  "map title scenarioE = [''X'', ''X'', ''Y'']"
  "duplicateValueWarnings ''projects'' ''project title'' [''X'', ''X'', ''Y''] =
     [duplicateValueWarning ''projects'' ''project title'' ''X'' 2]"
  "duplicateValueWarnings ''skills'' ''skill name'' [] = []"
  by code_simp+

lemma scenarioE_card: "{t. 1 < count_list [''X'', ''X'', ''Y''] t} = {''X''}"
  by (auto split: if_splits)

lemma scenarioCase_eval:
  "map title scenarioCase = [''X'', ''x'']"
  "duplicateValueWarnings ''projects'' ''project title'' [''X'', ''x''] = []"
  by code_simp+

section \<open>The claims\<close>

text \<open>
  Claim C1 (duplicate detection). In each of the five collections, the duplicate errors
  that \<open>validateDataQuality\<close> reports for the collection's entity type are, in order,
  those of the ids at the places where the id has occurred before in the collection; so an
  id that occurs \<open>k\<close> times has \<open>k - 1\<close> duplicate errors (none when \<open>k \<le> 1\<close>), and
  \<open>stats.duplicates\<close> is the number of these extra occurrences over all collections. The
  scan of one more entity adds an error exactly when the entity's id is among the ids of
  the entities before it: the first occurrence is not flagged.
\<close>

theorem duplicate_detection:
  "(\<forall>(ty, ids) \<in> set (collections_spec d).
      duplicateErrorsOf ty (validateDataQuality d) =
        map (duplicateError ty) (laterOccurrences_spec ids)
      \<and> (\<forall>x. length (filter (\<lambda>e. err_value e = Some x)
                        (duplicateErrorsOf ty (validateDataQuality d))) = count_list ids x - 1))
   \<and> duplicates (stats (validateDataQuality d)) =
       int (sum_list (map (\<lambda>(ty, ids). length ids - card (set ids)) (collections_spec d)))
   \<and> (\<forall>i < length es.
         errors (checkDuplicates g (take (Suc i) es) ty r) =
           errors (checkDuplicates g (take i es) ty r) @
           (if g (es ! i) \<in> g ` set (take i es) then [duplicateError ty (g (es ! i))] else []))"
proof (intro conjI)
  show "\<forall>(ty, ids) \<in> set (collections_spec d).
      duplicateErrorsOf ty (validateDataQuality d) =
        map (duplicateError ty) (laterOccurrences_spec ids)
      \<and> (\<forall>x. length (filter (\<lambda>e. err_value e = Some x)
                        (duplicateErrorsOf ty (validateDataQuality d))) = count_list ids x - 1)"
  proof (intro ballI, clarify, intro conjI allI)
    fix ty ids x
    assume mem: "(ty, ids) \<in> set (collections_spec d)"
    show eq: "duplicateErrorsOf ty (validateDataQuality d) =
                map (duplicateError ty) (laterOccurrences_spec ids)"
      using mem by (rule duplicateErrorsOf_collection)
    show "length (filter (\<lambda>e. err_value e = Some x)
                    (duplicateErrorsOf ty (validateDataQuality d))) = count_list ids x - 1"
      by (simp only: eq count_value_duplicateError count_laterOccurrences)
  qed
  show "duplicates (stats (validateDataQuality d)) =
       int (sum_list (map (\<lambda>(ty, ids). length ids - card (set ids)) (collections_spec d)))"
    by (simp add: validateDataQuality_closed length_duplicateErrors)
  show "\<forall>i < length es.
         errors (checkDuplicates g (take (Suc i) es) ty r) =
           errors (checkDuplicates g (take i es) ty r) @
           (if g (es ! i) \<in> g ` set (take i es) then [duplicateError ty (g (es ! i))] else [])"
    using checkDuplicates_prefix by blast
qed

theorem duplicate_detection_witness:
  "count_list [''acme'', ''acme'', ''beta'', ''acme''] ''acme'' = 3
   \<and> length (filter (\<lambda>e. err_value e = Some ''acme'')
               (duplicateErrorsOf ''companies'' (validateDataQuality scenarioDup))) = 2
   \<and> length (filter (\<lambda>e. err_value e = Some ''beta'')
               (duplicateErrorsOf ''companies'' (validateDataQuality scenarioDup))) = 0
   \<and> duplicates (stats (validateDataQuality scenarioDup)) = 3"
proof -
  note t = duplicate_detection [of scenarioDup "[] :: Company list" company_id "''companies''"
      emptyReport]
  note c = conjunct2 [OF bspec [OF conjunct1 [OF t] scenarioDup_eval(1), unfolded prod.case]]
  have "length (filter (\<lambda>e. err_value e = Some ''acme'')
               (duplicateErrorsOf ''companies'' (validateDataQuality scenarioDup))) = 2"
    by (simp add: spec [OF c, of "''acme''"])
  moreover have "length (filter (\<lambda>e. err_value e = Some ''beta'')
               (duplicateErrorsOf ''companies'' (validateDataQuality scenarioDup))) = 0"
    by (simp add: spec [OF c, of "''beta''"])
  moreover have "duplicates (stats (validateDataQuality scenarioDup)) = 3"
    using conjunct1 [OF conjunct2 [OF t]] by (simp only: scenarioDup_eval(2))
  ultimately show ?thesis by simp
qed

text \<open>
  Claim C2 (reference integrity). The missing-reference errors of the report, read as
  entity type, field and referenced id, are exactly the broken reference instances of the
  snapshot, one error per instance and in the order of the checks; \<open>stats.brokenReferences\<close>
  is their number.
\<close>

theorem reference_integrity:
  "map (\<lambda>e. (err_entity e, err_field e, err_value e))
     (missingReferenceErrors (validateDataQuality d)) = brokenReferences_spec d
   \<and> brokenReferences (stats (validateDataQuality d)) = int (length (brokenReferences_spec d))
   \<and> brokenReferences (stats (validateDataQuality d)) =
       int (length (missingReferenceErrors (validateDataQuality d)))"
proof -
  have "length (brokenReferences_spec d) = length (referenceErrors d)"
    by (simp flip: map_referenceErrors)
  moreover have "brokenReferences (stats (validateDataQuality d)) = int (length (referenceErrors d))"
    by (simp add: validateDataQuality_closed)
  ultimately show ?thesis
    by (simp add: missingReferenceErrors_closed map_referenceErrors)
qed

theorem reference_integrity_witness:
  "map (\<lambda>e. (err_entity e, err_field e, err_value e))
     (missingReferenceErrors (validateDataQuality scenarioRefs)) =
     [(''projects'', Some ''partners'', Some ''ghost''),
      (''projects'', Some ''technologies'', Some ''ghost''),
      (''projects'', Some ''technologies'', Some ''ghost''),
      (''integrations'', Some ''projects'', Some ''p9''),
      (''integrations'', Some ''target'', Some ''ghost'')]
   \<and> brokenReferences (stats (validateDataQuality scenarioRefs)) = 5"
  using reference_integrity [of scenarioRefs] by (simp add: scenarioRefs_eval)

text \<open>
  Claim C3 (validity flag). The report is valid exactly when it has no error. The pass
  over the unused entities changes neither the flag nor the errors, every warning of the
  report is an unused-entity warning, and every error is a duplicate or a missing reference.
\<close>

theorem validity_flag:
  "isValid (validateDataQuality d) = (errors (validateDataQuality d) = [])
   \<and> isValid (checkUnused d r) = isValid r
   \<and> errors (checkUnused d r) = errors r
   \<and> (\<forall>w \<in> set (warnings (validateDataQuality d)). warn_type w = UnusedEntity)
   \<and> (\<forall>e \<in> set (errors (validateDataQuality d)).
         err_type e = Duplicate \<or> err_type e = MissingReference)"
  by (auto simp: validateDataQuality_closed checkUnused_closed addUnused_def
      dest: duplicateErrors_type referenceErrors_type unusedWarnings_type)

theorem validity_flag_witness:
  "isValid (validateDataQuality scenarioUnused)
   \<and> errors (validateDataQuality scenarioUnused) = []
   \<and> length (warnings (validateDataQuality scenarioUnused)) = 2
   \<and> \<not> isValid (validateDataQuality scenarioB)
   \<and> length (errors (validateDataQuality scenarioB)) = 1"
proof -
  have "isValid (validateDataQuality scenarioUnused)"
    using conjunct1 [OF validity_flag [of scenarioUnused emptyReport]]
    by (simp only: scenarioUnused_eval)
  moreover have "\<not> isValid (validateDataQuality scenarioB)"
    using conjunct1 [OF validity_flag [of scenarioB emptyReport]] scenarioB_eval
    by auto
  ultimately show ?thesis
    by (simp add: scenarioUnused_eval scenarioB_eval)
qed

text \<open>
  Claim C4 (unused companies). Element by element of the companies collection, the report
  has an unused-entity warning for the company exactly when its status is \<open>active\<close> and its
  id is in no project's partners list; the step of the scan leaves the report as it is for
  a company that is not active, whatever the used ids are.
\<close>

theorem unused_company:
  "filter (\<lambda>w. warn_entity w = ''companies'') (warnings (validateDataQuality d)) =
     concat (map (\<lambda>c. if company_status c = CompanyActive \<and>
                          company_id c \<notin> (\<Union>p \<in> set (projects d). set (partners p))
                       then [companyWarning c] else [])
               (companies (entities d)))
   \<and> (company_status c \<noteq> CompanyActive \<longrightarrow> unusedCompanyStep used r c = r)"
proof -
  have "warnings (validateDataQuality d) = unusedWarnings d"
    by (simp add: validateDataQuality_closed)
  then show ?thesis
    by (simp only: filter_companies_unusedWarnings concat_map_if usedCompanies_def
        unusedCompanyStep_def) simp
qed

theorem unused_company_witness:
  "filter (\<lambda>w. warn_entity w = ''companies'') (warnings (validateDataQuality scenarioCompanies)) =
     [companyWarning (company ''acme'' CompanyActive)]
   \<and> unusedCompanyStep {} emptyReport (company ''beta'' CompanyInactive) = emptyReport"
proof -
  note t = unused_company [of scenarioCompanies "company ''beta'' CompanyInactive" "{}" emptyReport]
  have a: "filter (\<lambda>w. warn_entity w = ''companies'')
             (warnings (validateDataQuality scenarioCompanies)) =
           [companyWarning (company ''acme'' CompanyActive)]"
    using conjunct1 [OF t] by (simp only: scenarioCompanies_eval)
  have b: "unusedCompanyStep {} emptyReport (company ''beta'' CompanyInactive) = emptyReport"
    using conjunct2 [OF t] by (simp add: company_def)
  from a b show ?thesis by (rule conjI)
qed

text \<open>
  Claim C5 (idempotence of deduplication). Deduplicating a deduplicated snapshot changes
  nothing, and each collection of the deduplicated snapshot holds the entities that are the
  first with their id, in collection order.
\<close>

theorem deduplicate_idempotent:
  "deduplicateData (deduplicateData d) = deduplicateData d
   \<and> companies (entities (deduplicateData d)) =
       firstOccurrences_spec company_id (companies (entities d))
   \<and> entity_technologies (entities (deduplicateData d)) =
       firstOccurrences_spec tech_id (entity_technologies (entities d))
   \<and> entity_modules (entities (deduplicateData d)) =
       firstOccurrences_spec mod_id (entity_modules (entities d))
   \<and> projects (deduplicateData d) = firstOccurrences_spec project_id (projects d)
   \<and> integrations (deduplicateData d) = firstOccurrences_spec integration_id (integrations d)"
  by (simp add: deduplicateData_def deduplicate_idem deduplicate_first [symmetric])

theorem deduplicate_idempotent_witness:
  "deduplicateData (deduplicateData scenarioDup) = deduplicateData scenarioDup
   \<and> companies (entities (deduplicateData scenarioDup)) =
       [company ''acme'' CompanyActive, company ''beta'' CompanyActive]
   \<and> entity_technologies (entities (deduplicateData scenarioDup)) = [technology ''react'']"
  using deduplicate_idempotent [of scenarioDup] by (simp add: scenarioDup_dedup)

text \<open>
  Claim C6 (identifier schema), as amended. The schema checks the input as it is given: it
  accepts exactly the strings that are non-empty and consist of characters of
  \<open>[a-z0-9_-]\<close>, and rejects every other string with the issues of the failed checks. The
  transform to lower case and the trimming run on accepted input only and leave it
  unchanged, so the parsed identifier is the input itself and is not empty.
\<close>

theorem entityId_schema:
  "entityIdSchema s =
     (if idRegex s then Inr s
      else Inl ((if s = [] then [''ID cannot be empty''] else []) @
                [''ID must contain only lowercase letters, numbers, underscores, and hyphens'']))
   \<and> (\<forall>i. entityIdSchema s = Inr i \<longrightarrow>
          i = s \<and> i \<noteq> [] \<and> idRegex i \<and> trim (toLowerCase s) = s)"
  by (auto simp: entityIdSchema_def idRegex_def toLowerCase_id trim_id Let_def)

text \<open>
  The claim as stated fails: \<open>ABC\<close> and \<open> abc \<close> have the normal form \<open>abc\<close>, which is not
  empty and matches the pattern, and the schema rejects both.
\<close>

theorem entityId_schema_counterexample:
  "trim (toLowerCase ''ABC'') = ''abc'' \<and> idRegex (trim (toLowerCase ''ABC''))
   \<and> entityIdSchema ''ABC'' =
       Inl [''ID must contain only lowercase letters, numbers, underscores, and hyphens'']
   \<and> trim (toLowerCase '' abc '') = ''abc'' \<and> idRegex (trim (toLowerCase '' abc ''))
   \<and> entityIdSchema '' abc '' =
       Inl [''ID must contain only lowercase letters, numbers, underscores, and hyphens'']"
  by code_simp

theorem entityId_schema_witness:
  "idRegex ''acme-1_x'' \<and> entityIdSchema ''acme-1_x'' = Inr ''acme-1_x''
   \<and> \<not> idRegex ''Acme'' \<and> entityIdSchema '''' =
       Inl [''ID cannot be empty'',
            ''ID must contain only lowercase letters, numbers, underscores, and hyphens'']"
proof -
  have r: "idRegex ''acme-1_x''" "\<not> idRegex ''Acme''" "\<not> idRegex ''''" by code_simp+
  show ?thesis
    using entityId_schema [of "''acme-1_x''"] entityId_schema [of "''''"] r by simp
qed

text \<open>
  Claim C7 (quality score). With a quality report, the score of the admin statistics is
  \<open>100 - duplicates * 10 - brokenReferences * 15 - unusedEntities * 2\<close> clamped to the range
  from 0 to 100; it depends on the three statistics only.
\<close>

theorem quality_score:
  "dataQualityScore (Some r) =
     max 0 (min 100 (100 - duplicates (stats r) * 10 - brokenReferences (stats r) * 15 -
                     unusedEntities (stats r) * 2))
   \<and> 0 \<le> dataQualityScore (Some r) \<and> dataQualityScore (Some r) \<le> 100"
  by (simp add: dataQualityScore_def Let_def)

theorem quality_score_witness:
  "dataQualityScore (Some (reportWithStats 1 2 3)) = 54
   \<and> dataQualityScore (Some (reportWithStats 11 0 0)) = 0
   \<and> dataQualityScore (Some (reportWithStats 0 0 0)) = 100"
  using quality_score [of "reportWithStats 1 2 3"] quality_score [of "reportWithStats 11 0 0"]
    quality_score [of "reportWithStats 0 0 0"]
  by (simp add: reportWithStats_def)

text \<open>
  Claim C8 (admin duplicate counting). The admin check compares titles and names as they
  are. Its warnings are one per distinct project title that occurs more than once, then one
  per distinct skill name that occurs more than once; \<open>stats.duplicates\<close> is the number of
  these warnings, that is the number of duplicated titles plus the number of duplicated
  names, whatever the number of their occurrences. It reports no error.
\<close>

theorem admin_duplicates:
  "warnings (runQualityCheck ps ss es) =
     duplicateValueWarnings ''projects'' ''project title'' (map title ps) @
     duplicateValueWarnings ''skills'' ''skill name'' (map skill_name ss)
   \<and> duplicates (stats (runQualityCheck ps ss es)) =
       int (length (warnings (runQualityCheck ps ss es)))
   \<and> duplicates (stats (runQualityCheck ps ss es)) =
       int (card {t. 1 < count_list (map title ps) t}) +
       int (card {n. 1 < count_list (map skill_name ss) n})
   \<and> errors (runQualityCheck ps ss es) = [] \<and> isValid (runQualityCheck ps ss es)"
  by (simp add: runQualityCheck_def duplicateValue_fold addDuplicateValues_def
      length_duplicateValueWarnings)

theorem admin_duplicates_witness:
  "warnings (runQualityCheck scenarioE [] ([] :: unit list)) =
     [duplicateValueWarning ''projects'' ''project title'' ''X'' 2]
   \<and> duplicates (stats (runQualityCheck scenarioE [] ([] :: unit list))) = 1
   \<and> warnings (runQualityCheck scenarioCase [] ([] :: unit list)) = []
   \<and> duplicates (stats (runQualityCheck scenarioCase [] ([] :: unit list))) = 0"
  using admin_duplicates [of scenarioE "[]" "[] :: unit list"]
    admin_duplicates [of scenarioCase "[]" "[] :: unit list"]
  by (simp add: scenarioE_eval scenarioE_card scenarioCase_eval)

text \<open>
  Claim C9 (total of the entities). Every call of \<open>checkDuplicates\<close> adds the raw length of
  its collection to \<open>stats.totalEntities\<close>, and the report's total is the sum of the lengths
  of the five collections, duplicates included.
\<close>

theorem totalEntities_raw:
  "totalEntities (stats (checkDuplicates g es ty r)) = totalEntities (stats r) + int (length es)
   \<and> totalEntities (stats (validateDataQuality d)) =
       int (length (companies (entities d))) + int (length (entity_technologies (entities d))) +
       int (length (entity_modules (entities d))) + int (length (projects d)) +
       int (length (integrations d))"
  by (simp add: checkDuplicates_closed validateDataQuality_closed entityCount_def)

theorem totalEntities_raw_witness:
  "map company_id (companies (entities scenarioB)) = [''acme'', ''acme'']
   \<and> totalEntities (stats (validateDataQuality scenarioB)) = 2"
  using totalEntities_raw [of company_id "[] :: Company list" "''companies''" emptyReport scenarioB]
  by (simp add: scenarioB_def example_defs)

text \<open>
  Claim C10 (\<open>optimizeData\<close>). Whatever the flag, also when it is left out,
  \<open>optimizeData\<close> returns the snapshot it was given.
\<close>

theorem optimizeData_identity: "optimizeData d removeUnused = d"
  by (simp add: optimizeData_def Let_def split: option.split)

theorem optimizeData_identity_witness:
  "optimizeData scenarioA (Some True) = scenarioA \<and> optimizeData scenarioA None = scenarioA
   \<and> optimizeData scenarioA (Some False) = scenarioA"
  using optimizeData_identity [of scenarioA "Some True"] optimizeData_identity [of scenarioA None]
    optimizeData_identity [of scenarioA "Some False"]
  by simp

end
